theory Spec2Isabelle
  imports Main
begin

section \<open>Data model\<close>

text \<open>
  The persisted state of the backend is three Sequelize tables (calls, call_permissions,
  call_logs) and the table of local contacts.  A table is the list of its rows in insertion
  order.  Primary keys are UUIDs drawn by the library, modelled by numbers (see \<open>fresh\<close>
  below).  A \<open>DATE\<close> is the number of milliseconds since the
  epoch, which is what JavaScript compares when two dates are compared; every reading of
  the clock that a handler makes is an argument of the handler.

  Status columns are declared as \<open>ENUM\<close>s, but the handlers write request strings into
  them and the configured dialect (\<open>dialect: 'sqlite'\<close> in models/index.js) stores an
  \<open>ENUM\<close> as unchecked text, so a status is a string here: the column takes \<open>answered\<close>
  and \<open>failed\<close>, which the declarations do not list, as it takes any other string.
  Columns that the handlers below only carry along (metadata,
  hubspotCallId, updatedAt, the JSON payload of a log entry) are left out.
\<close>

type_synonym uuid = nat
type_synonym time = int

datatype direction = Inbound | Outbound

text \<open>The value \<open>parseInt\<close> yields: an integer or \<open>NaN\<close>.\<close>

datatype js_number = Num int | NaN

record Call =
  c_id :: uuid
  twilioCallSid :: string
  c_contactId :: uuid
  c_direction :: direction
  c_status :: string
  fromNumber :: string
  toNumber :: string
  duration :: js_number
  startTime :: "time option"
  endTime :: "time option"
  recordingUrl :: "string option"
  c_notes :: "string option"

record CallPermission =
  p_id :: uuid
  p_contactId :: uuid
  whatsappNumber :: string
  p_status :: string
  requestedAt :: time
  respondedAt :: "time option"
  expiresAt :: time
  callsUsed :: int
  maxCalls :: int
  consecutiveMissedCalls :: int
  twilioMessageSid :: "string option"
  createdAt :: time

record CallLog =
  l_callId :: uuid
  l_event :: string
  l_status :: "string option"
  l_source :: string
  l_message :: "string option"

record HubSpotContact =
  h_id :: uuid
  hubspotContactId :: string
  h_whatsappNumber :: "string option"

record db =
  calls :: "Call list"
  permissions :: "CallPermission list"
  logs :: "CallLog list"
  contacts :: "HubSpotContact list"

text \<open>
  What a handler leaves behind besides the tables: the HTTP status it answers with, or
  the TwiML document of the voice webhook.  \<open>Error500\<close> and \<open>TwimlUnavailable\<close> are the
  \<open>catch\<close> blocks of the handlers; they carry the error that was caught and logged.
\<close>

datatype error = UniqueConstraintError | NoSuchTable string | CollaboratorError

datatype response =
    Ok200
  | Forbidden403
  | NotFound404
  | RateLimited429
  | Error500 error
  | TwimlConference
  | TwimlUnavailable error

section \<open>Configuration\<close>

text \<open>\<open>config.callPermissions\<close> (config/config.js).\<close>

definition maxRequestsPerDay :: nat where
  "maxRequestsPerDay = 1"

definition maxRequestsPer7Days :: nat where
  "maxRequestsPer7Days = 2"

definition day_ms :: int where
  "day_ms = 24 * 60 * 60 * 1000"

section \<open>Library operations on the tables\<close>

text \<open>
  \<open>UUIDV4\<close> as the default of a primary key: a key no row of the table holds.  The
  library draws it at random; here it is the successor of the largest key in use.
\<close>

definition fresh :: "uuid list \<Rightarrow> uuid" where
  "fresh ks = Suc (fold max ks 0)"

text \<open>
  \<open>s.replace(pat, '')\<close> with a string pattern: the first occurrence of \<open>pat\<close> is
  taken out, the rest is kept.
\<close>

fun replace_first :: "string \<Rightarrow> string \<Rightarrow> string" where
  "replace_first pat [] = []"
| "replace_first pat (c # cs) =
     (if take (length pat) (c # cs) = pat then drop (length pat) (c # cs)
      else c # replace_first pat cs)"

definition startsWith :: "string \<Rightarrow> string \<Rightarrow> bool" where
  "startsWith s pat = (take (length pat) s = pat)"

text \<open>JavaScript truthiness of an optional request string: present and not empty.\<close>

fun truthy :: "string option \<Rightarrow> bool" where
  "truthy None = False"
| "truthy (Some s) = (s \<noteq> [])"

text \<open>
  \<open>instance.update(values)\<close> writes the given columns of the row whose primary key is
  the instance's; \<open>instance.increment(column)\<close> runs \<open>SET column = column + 1\<close> on that
  row in the database.  Outside PostgreSQL the increment does not refresh the instance in
  memory (the library's documentation asks for a \<open>reload\<close> to see the new value), so a
  handler that reads the column from the instance afterwards reads the value it loaded.
\<close>

definition update_call :: "uuid \<Rightarrow> (Call \<Rightarrow> Call) \<Rightarrow> db \<Rightarrow> db" where
  "update_call k f d = d\<lparr>calls := map (\<lambda>c. if c_id c = k then f c else c) (calls d)\<rparr>"

definition update_permission ::
  "uuid \<Rightarrow> (CallPermission \<Rightarrow> CallPermission) \<Rightarrow> db \<Rightarrow> db" where
  "update_permission k f d =
     d\<lparr>permissions := map (\<lambda>p. if p_id p = k then f p else p) (permissions d)\<rparr>"

definition CallLog_create :: "CallLog \<Rightarrow> db \<Rightarrow> db" where
  "CallLog_create l d = d\<lparr>logs := logs d @ [l]\<rparr>"

text \<open>
  \<open>sequelize.sync\<close> creates one table for each model, under the model's \<open>tableName\<close>.
\<close>

definition schema_tables :: "string list" where
  "schema_tables = [''hubspot_contacts'', ''calls'', ''call_permissions'', ''call_logs'']"

text \<open>
  The column \<open>contactId\<close> of Call and of CallPermission is declared with
  \<open>references: { model: 'HubSpotContacts', key: 'id' }\<close>, and that is the parent table
  their \<open>CREATE TABLE\<close> statements name.  The schema holds no table of that name: the
  contacts are in \<open>hubspot_contacts\<close>.  The library turns foreign keys on for SQLite, and
  SQLite then refuses every \<open>INSERT\<close> into a table whose parent table is missing (no
  such table).  An \<open>UPDATE\<close> that leaves \<open>contactId\<close> alone is not touched by this, nor
  is an insert into call_logs, whose parent table \<open>calls\<close> exists.
\<close>

definition contactId_references :: string where
  "contactId_references = ''HubSpotContacts''"

text \<open>
  The insert into calls once the reference is accepted: the column \<open>twilioCallSid\<close> is
  declared \<open>unique: true\<close>, so the row is refused when a row already holds the same value.
\<close>

definition Call_insert :: "Call \<Rightarrow> db \<Rightarrow> error + db" where
  "Call_insert c d =
     (if twilioCallSid c \<in> set (map twilioCallSid (calls d)) then Inl UniqueConstraintError
      else Inr (d\<lparr>calls := calls d @ [c]\<rparr>))"

definition Call_create :: "Call \<Rightarrow> db \<Rightarrow> error + db" where
  "Call_create c d =
     (if contactId_references \<in> set schema_tables then Call_insert c d
      else Inl (NoSuchTable contactId_references))"

definition CallPermission_create :: "CallPermission \<Rightarrow> db \<Rightarrow> error + db" where
  "CallPermission_create p d =
     (if contactId_references \<in> set schema_tables
      then Inr (d\<lparr>permissions := permissions d @ [p]\<rparr>)
      else Inl (NoSuchTable contactId_references))"

text \<open>The same constraint when an existing row's \<open>twilioCallSid\<close> is written.\<close>

definition Call_update_sid :: "uuid \<Rightarrow> string \<Rightarrow> db \<Rightarrow> error + db" where
  "Call_update_sid k sid d =
     (if sid \<in> set (map twilioCallSid (filter (\<lambda>c. c_id c \<noteq> k) (calls d)))
      then Inl UniqueConstraintError
      else Inr (update_call k (\<lambda>c. c\<lparr>twilioCallSid := sid\<rparr>) d))"

definition Call_findOne :: "string \<Rightarrow> db \<Rightarrow> Call option" where
  "Call_findOne sid d = find (\<lambda>c. twilioCallSid c = sid) (calls d)"

definition HubSpotContact_findByPk :: "uuid \<Rightarrow> db \<Rightarrow> HubSpotContact option" where
  "HubSpotContact_findByPk k d = find (\<lambda>h. h_id h = k) (contacts d)"

text \<open>
  \<open>findOne\<close> ordered by \<open>createdAt\<close>, descending: a row with the greatest \<open>createdAt\<close>
  among the matching ones; among rows created at the same instant the earliest inserted.
\<close>

fun latest :: "CallPermission list \<Rightarrow> CallPermission option" where
  "latest [] = None"
| "latest (p # ps) =
     (case latest ps of
        None \<Rightarrow> Some p
      | Some q \<Rightarrow> if createdAt q \<le> createdAt p then Some p else Some q)"

definition CallPermission_findOne :: "(CallPermission \<Rightarrow> bool) \<Rightarrow> db \<Rightarrow> CallPermission option" where
  "CallPermission_findOne w d = latest (filter w (permissions d))"

section \<open>CallPermission instance methods\<close>

text \<open>\<open>isExpired\<close>: \<open>new Date() > this.expiresAt\<close>; the clock reading is \<open>now\<close>.\<close>

definition isExpired :: "time \<Rightarrow> CallPermission \<Rightarrow> bool" where
  "isExpired now p = (now > expiresAt p)"

definition canMakeCall :: "time \<Rightarrow> CallPermission \<Rightarrow> bool" where
  "canMakeCall now p =
     (p_status p = ''approved'' \<and> \<not> isExpired now p \<and>
      callsUsed p < maxCalls p \<and> consecutiveMissedCalls p < 4)"

definition incrementCallsUsed :: "CallPermission \<Rightarrow> db \<Rightarrow> db" where
  "incrementCallsUsed p d =
     update_permission (p_id p) (\<lambda>r. r\<lparr>callsUsed := callsUsed r + 1\<rparr>) d"

definition incrementMissedCalls :: "CallPermission \<Rightarrow> db \<Rightarrow> db" where
  "incrementMissedCalls p d =
     update_permission (p_id p)
       (\<lambda>r. r\<lparr>consecutiveMissedCalls := consecutiveMissedCalls r + 1\<rparr>) d"

definition resetMissedCalls :: "CallPermission \<Rightarrow> db \<Rightarrow> db" where
  "resetMissedCalls p d =
     update_permission (p_id p) (\<lambda>r. r\<lparr>consecutiveMissedCalls := 0\<rparr>) d"

section \<open>Webhook handlers\<close>

subsection \<open>POST /call-status\<close>

record status_req =
  CallSid :: string
  CallStatus :: string
  CallDuration :: "string option"
  RecordingUrl :: "string option"

text \<open>
  The \<open>updates\<close> object the handler builds from the request and the Call it loaded, as the
  change it makes to the row.  \<open>parseInt\<close> is JavaScript's; \<open>now\<close> is the handler's
  \<open>new Date()\<close>.
\<close>

definition status_updates ::
  "(string \<Rightarrow> js_number) \<Rightarrow> time \<Rightarrow> status_req \<Rightarrow> Call \<Rightarrow> Call \<Rightarrow> Call" where
  "status_updates parseInt now req call row =
     (let r1 = row\<lparr>c_status := CallStatus req\<rparr>;
          r2 = (if truthy (CallDuration req)
                then r1\<lparr>duration := parseInt (the (CallDuration req))\<rparr> else r1);
          r3 = (if truthy (RecordingUrl req)
                then r2\<lparr>recordingUrl := RecordingUrl req\<rparr> else r2)
      in if CallStatus req = ''completed'' \<and> endTime call = None
         then r3\<lparr>endTime := Some now\<rparr> else r3)"

definition approved_for :: "uuid \<Rightarrow> CallPermission \<Rightarrow> bool" where
  "approved_for contact p = (p_contactId p = contact \<and> p_status p = ''approved'')"

definition missed_call :: "Call \<Rightarrow> db \<Rightarrow> db" where
  "missed_call call d =
     (case CallPermission_findOne (approved_for (c_contactId call)) d of
        None \<Rightarrow> d
      | Some permission \<Rightarrow>
          (let d1 = incrementMissedCalls permission d
           in if consecutiveMissedCalls permission \<ge> 4
              then update_permission (p_id permission) (\<lambda>r. r\<lparr>p_status := ''expired''\<rparr>) d1
              else d1))"

definition answered_call :: "Call \<Rightarrow> db \<Rightarrow> db" where
  "answered_call call d =
     (case CallPermission_findOne (approved_for (c_contactId call)) d of
        None \<Rightarrow> d
      | Some permission \<Rightarrow> resetMissedCalls permission d)"

text \<open>
  The handler answers 200 whether or not a Call has the \<open>CallSid\<close>; logging the activity to
  HubSpot and the broadcast to the agents' sockets do not touch the tables.
\<close>

definition call_status :: "(string \<Rightarrow> js_number) \<Rightarrow> time \<Rightarrow> status_req \<Rightarrow> db \<Rightarrow> db" where
  "call_status parseInt now req d =
     (case Call_findOne (CallSid req) d of
        None \<Rightarrow> d
      | Some call \<Rightarrow>
          (let d1 = update_call (c_id call) (status_updates parseInt now req call) d;
               d2 = CallLog_create
                      \<lparr>l_callId = c_id call, l_event = ''status_update'',
                       l_status = Some (CallStatus req), l_source = ''twilio'',
                       l_message = Some (''Call status updated to '' @ CallStatus req)\<rparr> d1
           in if CallStatus req = ''no-answer'' \<and> c_direction call = Outbound
              then missed_call call d2
              else if CallStatus req = ''answered'' \<and> c_direction call = Outbound
              then answered_call call d2
              else d2))"

subsection \<open>POST /voice/inbound\<close>

record inbound_req =
  i_CallSid :: string
  From :: string
  To :: string

text \<open>
  The contact of the caller: the local contact with the caller's number, and when there is
  none, what the HubSpot collaborator's search, sync and create steps end in.  That outcome
  is the argument \<open>resolved\<close>: the error thrown, or the local contact the steps return,
  which they have inserted into the contacts table or refreshed there.
\<close>

definition store_contact :: "HubSpotContact \<Rightarrow> db \<Rightarrow> db" where
  "store_contact h d =
     (if h_id h \<in> set (map h_id (contacts d))
      then d\<lparr>contacts := map (\<lambda>x. if h_id x = h_id h then h else x) (contacts d)\<rparr>
      else d\<lparr>contacts := contacts d @ [h]\<rparr>)"

definition find_or_create_contact ::
  "error + HubSpotContact \<Rightarrow> string \<Rightarrow> db \<Rightarrow> error + HubSpotContact \<times> db" where
  "find_or_create_contact resolved caller d =
     (case find (\<lambda>h. h_whatsappNumber h = Some (replace_first ''whatsapp:'' caller))
             (contacts d) of
        Some contact \<Rightarrow> Inr (contact, d)
      | None \<Rightarrow>
          (case resolved of
             Inl e \<Rightarrow> Inl e
           | Inr contact \<Rightarrow> Inr (contact, store_contact contact d)))"

text \<open>The record the handler passes to \<open>Call.create\<close>; \<open>k\<close> is its primary key.\<close>

definition inbound_call :: "uuid \<Rightarrow> time \<Rightarrow> inbound_req \<Rightarrow> HubSpotContact \<Rightarrow> Call" where
  "inbound_call k now req contact =
     \<lparr>c_id = k, twilioCallSid = i_CallSid req, c_contactId = h_id contact,
      c_direction = Inbound, c_status = ''ringing'', fromNumber = From req,
      toNumber = To req, duration = Num 0, startTime = Some now,
      endTime = None, recordingUrl = None, c_notes = None\<rparr>"

definition voice_inbound ::
  "error + HubSpotContact \<Rightarrow> time \<Rightarrow> inbound_req \<Rightarrow> db \<Rightarrow> response \<times> db" where
  "voice_inbound resolved now req d =
     (case find_or_create_contact resolved (From req) d of
        Inl e \<Rightarrow> (TwimlUnavailable e, d)
      | Inr (contact, d1) \<Rightarrow>
          (let k = fresh (map c_id (calls d1))
           in case Call_create (inbound_call k now req contact) d1 of
                Inl e \<Rightarrow> (TwimlUnavailable e, d1)
              | Inr d2 \<Rightarrow>
                  (TwimlConference,
                   CallLog_create
                     \<lparr>l_callId = k, l_event = ''inbound_call_received'',
                      l_status = Some ''ringing'', l_source = ''twilio'',
                      l_message = None\<rparr> d2)))"

section \<open>API handlers\<close>

subsection \<open>POST /outbound\<close>

record outbound_req =
  o_contactId :: uuid
  o_toNumber :: string
  agentIdentity :: string
  o_notes :: "string option"

text \<open>
  \<open>sender\<close> is the service's own WhatsApp number; \<open>t_check\<close> is the clock reading inside
  \<open>canMakeCall\<close>, \<open>t_start\<close> the one for \<open>startTime\<close>; \<open>dial\<close> is what
  \<open>makeOutboundCall\<close> ends in, the SID of the Twilio call or the error thrown.  An error
  inside the inner \<open>try\<close>, the write of the SID included, runs the inner \<open>catch\<close>, which
  marks the Call failed and throws on to the outer one.
\<close>

definition dial_failed :: "uuid \<Rightarrow> error \<Rightarrow> db \<Rightarrow> response \<times> db" where
  "dial_failed k e d =
     (Error500 e,
      CallLog_create
        \<lparr>l_callId = k, l_event = ''call_failed'', l_status = Some ''failed'',
         l_source = ''twilio'', l_message = Some ''Failed to initiate call via Twilio''\<rparr>
        (update_call k (\<lambda>c. c\<lparr>c_status := ''failed''\<rparr>) d))"

text \<open>
  The handler's inner \<open>try\<close> block, entered once \<open>Call.create\<close> has inserted the Call
  with the key \<open>k\<close>: the dial is made, the SID is stored, the initiation is logged and
  the use of the permission is counted.
\<close>

definition outbound_try ::
  "uuid \<Rightarrow> CallPermission \<Rightarrow> error + string \<Rightarrow> db \<Rightarrow> response \<times> db" where
  "outbound_try k permission dial d1 =
     (case dial of
        Inl e \<Rightarrow> dial_failed k e d1
      | Inr sid \<Rightarrow>
          (case Call_update_sid k sid d1 of
             Inl e \<Rightarrow> dial_failed k e d1
           | Inr d2 \<Rightarrow>
               (Ok200,
                incrementCallsUsed permission
                  (CallLog_create
                     \<lparr>l_callId = k, l_event = ''call_initiated'',
                      l_status = Some ''initiated'', l_source = ''system'',
                      l_message = Some ''Outbound WhatsApp call initiated''\<rparr>
                     d2))))"

text \<open>\<open>Call.create\<close> with the record \<open>c\<close>, and the \<open>try\<close> block after it.\<close>

definition place_call ::
  "Call \<Rightarrow> CallPermission \<Rightarrow> error + string \<Rightarrow> db \<Rightarrow> response \<times> db" where
  "place_call c permission dial d =
     (case Call_create c d of
        Inl e \<Rightarrow> (Error500 e, d)
      | Inr d1 \<Rightarrow> outbound_try (c_id c) permission dial d1)"

text \<open>The destination in WhatsApp format, and the permission the handler looks up for it.\<close>

definition destination :: "outbound_req \<Rightarrow> string" where
  "destination req =
     (if startsWith (o_toNumber req) ''whatsapp:'' then o_toNumber req
      else ''whatsapp:'' @ o_toNumber req)"

definition outbound_permission :: "outbound_req \<Rightarrow> db \<Rightarrow> CallPermission option" where
  "outbound_permission req d =
     CallPermission_findOne
       (\<lambda>p. p_contactId p = o_contactId req \<and>
            whatsappNumber p = replace_first ''whatsapp:'' (destination req) \<and>
            p_status p = ''approved'') d"

definition outbound_call :: "uuid \<Rightarrow> string \<Rightarrow> time \<Rightarrow> outbound_req \<Rightarrow> Call" where
  "outbound_call k sender t_start req =
     \<lparr>c_id = k, twilioCallSid = [], c_contactId = o_contactId req, c_direction = Outbound,
      c_status = ''initiated'', fromNumber = sender, toNumber = destination req,
      duration = Num 0, startTime = Some t_start, endTime = None, recordingUrl = None,
      c_notes = o_notes req\<rparr>"

definition outbound ::
  "string \<Rightarrow> time \<Rightarrow> time \<Rightarrow> error + string \<Rightarrow> outbound_req \<Rightarrow> db \<Rightarrow> response \<times> db" where
  "outbound sender t_check t_start dial req d =
     (case HubSpotContact_findByPk (o_contactId req) d of
        None \<Rightarrow> (NotFound404, d)
      | Some contact \<Rightarrow>
          (case outbound_permission req d of
             None \<Rightarrow> (Forbidden403, d)
           | Some permission \<Rightarrow>
               if \<not> canMakeCall t_check permission then (Forbidden403, d)
               else
                 place_call (outbound_call (fresh (map c_id (calls d))) sender t_start req)
                   permission dial d))"

subsection \<open>POST /permission/request\<close>

record permission_req =
  r_contactId :: uuid
  r_whatsappNumber :: string

text \<open>
  The handler reads the clock for the 24-hour window, for the 7-day window, for
  \<open>requestedAt\<close> and for \<open>expiresAt\<close>, and the library reads it for \<open>createdAt\<close>.
\<close>

record request_clock =
  t_daily :: time
  t_weekly :: time
  t_requested :: time
  t_expires :: time
  t_created :: time

definition requests_since :: "uuid \<Rightarrow> string \<Rightarrow> time \<Rightarrow> db \<Rightarrow> CallPermission list" where
  "requests_since contact number since d =
     filter (\<lambda>p. p_contactId p = contact \<and> whatsappNumber p = number \<and> since \<le> requestedAt p)
       (permissions d)"

text \<open>
  The handler's inner \<open>try\<close> and \<open>catch\<close>, entered once \<open>CallPermission.create\<close> has
  inserted the pending permission with the key \<open>k\<close>.  \<open>sent\<close> is what
  \<open>sendCallPermissionRequest\<close> ends in: the SID of the message, or the error thrown.
\<close>

definition dispatch_consent :: "uuid \<Rightarrow> error + string \<Rightarrow> db \<Rightarrow> response \<times> db" where
  "dispatch_consent k sent d1 =
     (case sent of
        Inr sid \<Rightarrow> (Ok200, update_permission k (\<lambda>r. r\<lparr>twilioMessageSid := Some sid\<rparr>) d1)
      | Inl e \<Rightarrow> (Error500 e, update_permission k (\<lambda>r. r\<lparr>p_status := ''failed''\<rparr>) d1))"

text \<open>The record the handler passes to \<open>CallPermission.create\<close>.\<close>

definition pending_permission ::
  "uuid \<Rightarrow> request_clock \<Rightarrow> uuid \<Rightarrow> string \<Rightarrow> CallPermission" where
  "pending_permission k clock contact cleanNumber =
     \<lparr>p_id = k, p_contactId = contact, whatsappNumber = cleanNumber, p_status = ''pending'',
      requestedAt = t_requested clock, respondedAt = None,
      expiresAt = t_expires clock + 7 * day_ms, callsUsed = 0, maxCalls = 5,
      consecutiveMissedCalls = 0, twilioMessageSid = None, createdAt = t_created clock\<rparr>"

definition permission_request ::
  "request_clock \<Rightarrow> error + string \<Rightarrow> permission_req \<Rightarrow> db \<Rightarrow> response \<times> db" where
  "permission_request clock sent req d =
     (case HubSpotContact_findByPk (r_contactId req) d of
        None \<Rightarrow> (NotFound404, d)
      | Some contact \<Rightarrow>
          (let cleanNumber = replace_first ''whatsapp:'' (r_whatsappNumber req);
               recentPermissions =
                 requests_since (r_contactId req) cleanNumber (t_daily clock - day_ms) d
           in if length recentPermissions \<ge> maxRequestsPerDay then (RateLimited429, d)
              else
                (let weeklyPermissions =
                       requests_since (r_contactId req) cleanNumber
                         (t_weekly clock - 7 * day_ms) d
                 in if length weeklyPermissions \<ge> maxRequestsPer7Days then (RateLimited429, d)
                    else
                      (let k = fresh (map p_id (permissions d))
                       in case CallPermission_create
                                 (pending_permission k clock (r_contactId req) cleanNumber) d of
                            Inl e \<Rightarrow> (Error500 e, d)
                          | Inr d1 \<Rightarrow> dispatch_consent k sent d1))))"

subsection \<open>POST /:callSid/hangup\<close>

text \<open>
  \<open>terminated\<close> is what \<open>twilioService.hangupCall\<close> ends in.  The call is awaited before
  the local update and is guarded only by the handler's outer \<open>catch\<close>.
\<close>

definition hangup :: "time \<Rightarrow> error + unit \<Rightarrow> string \<Rightarrow> db \<Rightarrow> response \<times> db" where
  "hangup now terminated callSid d =
     (case Call_findOne callSid d of
        None \<Rightarrow> (NotFound404, d)
      | Some call \<Rightarrow>
          (case terminated of
             Inl e \<Rightarrow> (Error500 e, d)
           | Inr _ \<Rightarrow>
               (Ok200,
                CallLog_create
                  \<lparr>l_callId = c_id call, l_event = ''call_hangup'',
                   l_status = Some ''completed'', l_source = ''system'',
                   l_message = Some ''Call hung up by user''\<rparr>
                  (update_call (c_id call)
                     (\<lambda>c. c\<lparr>c_status := ''completed'', endTime := Some now\<rparr>) d))))"

section \<open>Terminal statuses and sample states\<close>

definition terminal :: "string \<Rightarrow> bool" where
  "terminal s = (s \<in> set [''completed'', ''failed'', ''busy'', ''no-answer'', ''canceled''])"

text \<open>
  One contact, one outbound Call to that contact with the Twilio SID \<open>CA1\<close>, and approved
  permissions of the contact; the states the theorems below are evaluated on.
\<close>

definition sample_contact :: HubSpotContact where
  "sample_contact = \<lparr>h_id = 1, hubspotContactId = ''501'', h_whatsappNumber = Some ''+15550100''\<rparr>"

definition sample_call :: "string \<Rightarrow> Call" where
  "sample_call st =
     \<lparr>c_id = 1, twilioCallSid = ''CA1'', c_contactId = 1, c_direction = Outbound,
      c_status = st, fromNumber = ''whatsapp:+15550000'', toNumber = ''whatsapp:+15550100'',
      duration = Num 0, startTime = Some 1000, endTime = None, recordingUrl = None,
      c_notes = None\<rparr>"

definition sample_permission :: "uuid \<Rightarrow> string \<Rightarrow> time \<Rightarrow> int \<Rightarrow> CallPermission" where
  "sample_permission k number created missed =
     \<lparr>p_id = k, p_contactId = 1, whatsappNumber = number, p_status = ''approved'',
      requestedAt = created, respondedAt = Some (created + 1),
      expiresAt = created + 7 * day_ms, callsUsed = 0, maxCalls = 5,
      consecutiveMissedCalls = missed, twilioMessageSid = Some ''SM1'',
      createdAt = created\<rparr>"

definition sample_db :: "Call list \<Rightarrow> CallPermission list \<Rightarrow> db" where
  "sample_db cs ps = \<lparr>calls = cs, permissions = ps, logs = [], contacts = [sample_contact]\<rparr>"

definition status_event :: "string \<Rightarrow> status_req" where
  "status_event st =
     \<lparr>CallSid = ''CA1'', CallStatus = st, CallDuration = None, RecordingUrl = None\<rparr>"

definition sample_clock :: "time \<Rightarrow> request_clock" where
  "sample_clock t =
     \<lparr>t_daily = t, t_weekly = t, t_requested = t, t_expires = t, t_created = t\<rparr>"

definition sample_request :: permission_req where
  "sample_request = \<lparr>r_contactId = 1, r_whatsappNumber = ''whatsapp:+15550100''\<rparr>"

definition sample_outbound :: outbound_req where
  "sample_outbound =
     \<lparr>o_contactId = 1, o_toNumber = ''+15550100'', agentIdentity = ''agent-7'',
      o_notes = None\<rparr>"

definition sample_inbound :: "string \<Rightarrow> string \<Rightarrow> inbound_req" where
  "sample_inbound sid caller =
     \<lparr>i_CallSid = sid, From = caller, To = ''whatsapp:+15550000''\<rparr>"


text \<open>
  The sample events carry no \<open>CallDuration\<close>, so \<open>parseInt\<close> is never applied to them;
  the evaluations pass this function in its place.
\<close>

definition parseInt_unused :: "string \<Rightarrow> js_number" where
  "parseInt_unused s = NaN"

section \<open>Evaluation and auxiliary facts\<close>

lemmas sample_defs =
  sample_contact_def sample_call_def sample_permission_def sample_db_def status_event_def
  parseInt_unused_def sample_clock_def sample_request_def sample_outbound_def
  sample_inbound_def

lemmas table_defs =
  update_call_def update_permission_def CallLog_create_def Call_create_def Call_insert_def
  CallPermission_create_def schema_tables_def contactId_references_def
  Call_update_sid_def Call_findOne_def HubSpotContact_findByPk_def
  CallPermission_findOne_def fresh_def startsWith_def day_ms_def maxRequestsPerDay_def
  maxRequestsPer7Days_def incrementCallsUsed_def incrementMissedCalls_def
  resetMissedCalls_def canMakeCall_def isExpired_def approved_for_def

lemmas handler_defs =
  call_status_def status_updates_def missed_call_def answered_call_def voice_inbound_def
  find_or_create_contact_def store_contact_def inbound_call_def outbound_def place_call_def
  outbound_try_def outbound_permission_def outbound_call_def destination_def dial_failed_def
  permission_request_def dispatch_consent_def pending_permission_def requests_since_def
  hangup_def

lemma find_map_same:
  assumes "\<And>x. P (f x) = P x"
  shows "find P (map f xs) = map_option f (find P xs)"
  using assms by (induction xs) auto

lemma calls_missed_call: "calls (missed_call c d) = calls d"
  by (simp add: missed_call_def incrementMissedCalls_def update_permission_def Let_def
      split: option.splits)

lemma calls_answered_call: "calls (answered_call c d) = calls d"
  by (simp add: answered_call_def resetMissedCalls_def update_permission_def
      split: option.splits)

lemma sid_status_updates:
  "twilioCallSid (status_updates pI now req call row) = twilioCallSid row"
  by (simp add: status_updates_def Let_def)

lemma id_status_updates: "c_id (status_updates pI now req call row) = c_id row"
  by (simp add: status_updates_def Let_def)

lemma status_status_updates: "c_status (status_updates pI now req call row) = CallStatus req"
  by (simp add: status_updates_def Let_def)

lemma calls_call_status:
  "calls (call_status pI now req d) =
     (case Call_findOne (CallSid req) d of
        None \<Rightarrow> calls d
      | Some call \<Rightarrow>
          map (\<lambda>c. if c_id c = c_id call then status_updates pI now req call c else c)
            (calls d))"
  by (simp add: call_status_def Let_def calls_missed_call calls_answered_call
      CallLog_create_def update_call_def split: option.splits)

lemma Call_findOne_call_status:
  assumes "Call_findOne (CallSid req) d = Some call"
  shows "Call_findOne (CallSid req) (call_status pI now req d) =
           Some (status_updates pI now req call call)"
proof -
  let ?f = "\<lambda>c. if c_id c = c_id call then status_updates pI now req call c else c"
  let ?P = "\<lambda>c. twilioCallSid c = CallSid req"
  have "find ?P (map ?f (calls d)) = map_option ?f (find ?P (calls d))"
    by (rule find_map_same) (simp add: sid_status_updates)
  with assms show ?thesis
    by (simp add: Call_findOne_def calls_call_status)
qed

lemma status_updates_fields:
  "status_updates pI t req call row =
     row\<lparr>c_status := CallStatus req,
         duration := (if truthy (CallDuration req) then pI (the (CallDuration req)) else duration row),
         recordingUrl := (if truthy (RecordingUrl req) then RecordingUrl req else recordingUrl row),
         endTime := (if CallStatus req = ''completed'' \<and> endTime call = None then Some t else endTime row)\<rparr>"
  by (simp add: status_updates_def Let_def)

lemma status_updates_twice:
  "status_updates pI t2 req (status_updates pI t1 req call call) (status_updates pI t1 req call c)
     = status_updates pI t1 req call c"
  by (simp add: status_updates_fields)


lemma calls_twice:
  "calls (call_status pI t2 req (call_status pI t1 req d)) = calls (call_status pI t1 req d)"
proof (cases "Call_findOne (CallSid req) d")
  case None
  then have "call_status pI t req d = d" for t by (simp add: call_status_def)
  then show ?thesis by simp
next
  case (Some call)
  let ?call' = "status_updates pI t1 req call call"
  let ?f = "\<lambda>t k c. if c_id c = c_id call then status_updates pI t req k c else c"
  have after: "Call_findOne (CallSid req) (call_status pI t1 req d) = Some ?call'"
    by (rule Call_findOne_call_status [OF Some])
  have first: "calls (call_status pI t1 req d) = map (?f t1 call) (calls d)"
    by (simp add: calls_call_status Some)
  have "calls (call_status pI t2 req (call_status pI t1 req d)) =
          map (?f t2 ?call') (calls (call_status pI t1 req d))"
    by (simp add: calls_call_status [of pI t2] after id_status_updates)
  also have "\<dots> = map (?f t2 ?call' \<circ> ?f t1 call) (calls d)"
    by (simp only: first map_map)
  also have "?f t2 ?call' \<circ> ?f t1 call = ?f t1 call"
    by (rule ext) (simp add: id_status_updates status_updates_twice)
  finally show ?thesis by (simp only: first)
qed


lemma latest_map:
  assumes "\<And>x. createdAt (f x) = createdAt x"
  shows "latest (map f xs) = map_option f (latest xs)"
  by (induction xs) (auto simp: assms split: option.splits)

lemma filter_map_same:
  assumes "\<And>x. P (f x) = P x"
  shows "filter P (map f xs) = map f (filter P xs)"
  by (induction xs) (auto simp: assms)

lemma latest_mem: "latest xs = Some q \<Longrightarrow> q \<in> set xs"
  by (induction xs arbitrary: q) (auto split: option.splits if_splits)

lemma latest_None: "latest xs = None \<longleftrightarrow> xs = []"
  by (cases xs) (auto split: option.splits)

lemma latest_max: "latest xs = Some q \<Longrightarrow> p \<in> set xs \<Longrightarrow> createdAt p \<le> createdAt q"
proof (induction xs arbitrary: q)
  case Nil
  then show ?case by simp
next
  case (Cons x xs)
  show ?case
  proof (cases "latest xs")
    case None
    with Cons.prems show ?thesis by (auto simp: latest_None)
  next
    case (Some r)
    with Cons.prems Cons.IH [OF Some] show ?thesis
      by (auto split: if_splits)
  qed
qed

lemma permissions_update_call: "permissions (update_call k f d) = permissions d"
  by (simp add: update_call_def)

lemma permissions_CallLog_create: "permissions (CallLog_create l d) = permissions d"
  by (simp add: CallLog_create_def)

lemma findOne_cong: "permissions d' = permissions d \<Longrightarrow> CallPermission_findOne w d' = CallPermission_findOne w d"
  by (simp add: CallPermission_findOne_def)

lemma permissions_missed_call:
  "permissions (missed_call call d) =
     (case CallPermission_findOne (approved_for (c_contactId call)) d of
        None \<Rightarrow> permissions d
      | Some q \<Rightarrow>
          map (\<lambda>p. if p_id p = p_id q
                    then p\<lparr>consecutiveMissedCalls := consecutiveMissedCalls p + 1,
                           p_status := (if 4 \<le> consecutiveMissedCalls q then ''expired''
                                        else p_status p)\<rparr>
                    else p) (permissions d))"
  by (simp add: missed_call_def Let_def update_permission_def incrementMissedCalls_def
      split: option.splits)

lemma permissions_answered_call:
  "permissions (answered_call call d) =
     (case CallPermission_findOne (approved_for (c_contactId call)) d of
        None \<Rightarrow> permissions d
      | Some q \<Rightarrow>
          map (\<lambda>p. if p_id p = p_id q then p\<lparr>consecutiveMissedCalls := 0\<rparr> else p)
            (permissions d))"
  by (simp add: answered_call_def update_permission_def resetMissedCalls_def
      split: option.splits)


lemma permissions_missed_call_cong:
  "permissions d' = permissions d \<Longrightarrow>
     permissions (missed_call call d') = permissions (missed_call call d)"
  using findOne_cong [of d' d] by (simp add: permissions_missed_call split: option.splits)

lemma permissions_answered_call_cong:
  "permissions d' = permissions d \<Longrightarrow>
     permissions (answered_call call d') = permissions (answered_call call d)"
  using findOne_cong [of d' d] by (simp add: permissions_answered_call split: option.splits)

lemma permissions_missed_call_logged:
  "permissions (missed_call call (CallLog_create l (update_call k f d))) =
     permissions (missed_call call d)"
  by (rule permissions_missed_call_cong)
    (simp add: permissions_CallLog_create permissions_update_call)

lemma permissions_answered_call_logged:
  "permissions (answered_call call (CallLog_create l (update_call k f d))) =
     permissions (answered_call call d)"
  by (rule permissions_answered_call_cong)
    (simp add: permissions_CallLog_create permissions_update_call)

lemma permissions_call_status:
  "permissions (call_status pI now req d) =
     (case Call_findOne (CallSid req) d of
        None \<Rightarrow> permissions d
      | Some call \<Rightarrow>
          if CallStatus req = ''no-answer'' \<and> c_direction call = Outbound
          then permissions (missed_call call d)
          else if CallStatus req = ''answered'' \<and> c_direction call = Outbound
          then permissions (answered_call call d)
          else permissions d)"
  by (simp add: call_status_def Let_def permissions_CallLog_create permissions_update_call
      permissions_missed_call_logged permissions_answered_call_logged
      split: option.splits)

lemma direction_status_updates: "c_direction (status_updates pI now req call row) = c_direction row"
  by (simp add: status_updates_fields)

lemma contact_status_updates: "c_contactId (status_updates pI now req call row) = c_contactId row"
  by (simp add: status_updates_fields)

lemma reset_twice:
  assumes "CallPermission_findOne (approved_for k) d = Some q"
    and "permissions d' = map (\<lambda>p. if p_id p = p_id q then p\<lparr>consecutiveMissedCalls := 0\<rparr> else p) (permissions d)"
  shows "CallPermission_findOne (approved_for k) d' = Some (q\<lparr>consecutiveMissedCalls := 0\<rparr>)"
proof -
  let ?f = "\<lambda>p. if p_id p = p_id q then p\<lparr>consecutiveMissedCalls := 0\<rparr> else p"
  have "filter (approved_for k) (map ?f (permissions d)) = map ?f (filter (approved_for k) (permissions d))"
    by (rule filter_map_same) (simp add: approved_for_def)
  moreover have "latest (map ?f xs) = map_option ?f (latest xs)" for xs
    by (rule latest_map) simp
  ultimately show ?thesis
    using assms by (simp add: CallPermission_findOne_def)
qed

lemma permissions_answered_twice:
  "permissions (answered_call call' (answered_call call d)) = permissions (answered_call call d)"
  if "c_contactId call' = c_contactId call"
proof (cases "CallPermission_findOne (approved_for (c_contactId call)) d")
  case None
  then have "answered_call c d = d" if "c_contactId c = c_contactId call" for c
    using that by (simp add: answered_call_def)
  with that show ?thesis by simp
next
  case (Some q)
  let ?f = "\<lambda>p. if p_id p = p_id q then p\<lparr>consecutiveMissedCalls := 0\<rparr> else p"
  have first: "permissions (answered_call call d) = map ?f (permissions d)"
    by (simp add: permissions_answered_call Some)
  have "CallPermission_findOne (approved_for (c_contactId call)) (answered_call call d) =
          Some (q\<lparr>consecutiveMissedCalls := 0\<rparr>)"
    by (rule reset_twice [OF Some first])
  then have "permissions (answered_call call' (answered_call call d)) =
          map ?f (permissions (answered_call call d))"
    using that by (simp add: permissions_answered_call [of call'])
  also have "\<dots> = map (?f \<circ> ?f) (permissions d)"
    by (simp only: first map_map)
  also have "?f \<circ> ?f = ?f"
    by (rule ext) simp
  finally show ?thesis by (simp only: first)
qed

lemma permissions_twice:
  assumes "CallStatus req \<noteq> ''no-answer''"
  shows "permissions (call_status pI t2 req (call_status pI t1 req d)) =
           permissions (call_status pI t1 req d)"
proof (cases "Call_findOne (CallSid req) d")
  case None
  then have "call_status pI t req d = d" for t by (simp add: call_status_def)
  then show ?thesis by simp
next
  case (Some call)
  let ?call' = "status_updates pI t1 req call call"
  have after: "Call_findOne (CallSid req) (call_status pI t1 req d) = Some ?call'"
    by (rule Call_findOne_call_status [OF Some])
  show ?thesis
  proof (cases "CallStatus req = ''answered'' \<and> c_direction call = Outbound")
    case True
    then have first: "permissions (call_status pI t1 req d) = permissions (answered_call call d)"
      using assms by (simp add: permissions_call_status Some)
    have "permissions (call_status pI t2 req (call_status pI t1 req d)) =
            permissions (answered_call ?call' (call_status pI t1 req d))"
      using True assms by (simp add: permissions_call_status [of pI t2] after direction_status_updates)
    also have "\<dots> = permissions (answered_call ?call' (answered_call call d))"
      by (simp only: permissions_answered_call findOne_cong [OF first] first)
    also have "\<dots> = permissions (answered_call call d)"
      by (rule permissions_answered_twice) (simp add: contact_status_updates)
    finally show ?thesis by (simp only: first)
  next
    case False
    then have "permissions (call_status pI t req d') = permissions d'"
      if "Call_findOne (CallSid req) d' = Some c" "c_direction c = c_direction call" for t d' c
      using that assms by (auto simp: permissions_call_status)
    from this [OF after] this [OF Some] show ?thesis
      by (simp add: direction_status_updates)
  qed
qed

lemma missed_twice_findOne:
  assumes "CallPermission_findOne (approved_for k) d = Some q"
    and "permissions d' =
           map (\<lambda>p. if p_id p = p_id q
                     then p\<lparr>consecutiveMissedCalls := consecutiveMissedCalls p + 1\<rparr> else p)
             (permissions d)"
  shows "CallPermission_findOne (approved_for k) d' =
           Some (q\<lparr>consecutiveMissedCalls := consecutiveMissedCalls q + 1\<rparr>)"
proof -
  let ?f = "\<lambda>p. if p_id p = p_id q
                 then p\<lparr>consecutiveMissedCalls := consecutiveMissedCalls p + 1\<rparr> else p"
  have "filter (approved_for k) (map ?f (permissions d)) =
          map ?f (filter (approved_for k) (permissions d))"
    by (rule filter_map_same) (simp add: approved_for_def)
  moreover have "latest (map ?f xs) = map_option ?f (latest xs)" for xs
    by (rule latest_map) simp
  ultimately show ?thesis
    using assms by (simp add: CallPermission_findOne_def)
qed

lemma filter_id_map:
  assumes "\<And>p. p_id (F p) = p_id p"
  shows "filter (\<lambda>p. p_id p = k) (map (\<lambda>p. if p_id p = k then F p else p) ps) =
         map F (filter (\<lambda>p. p_id p = k) ps)"
  by (induction ps) (auto simp: assms)

lemma no_answer_twice:
  assumes ev: "CallStatus req = ''no-answer''"
    and call: "Call_findOne (CallSid req) d = Some call" "c_direction call = Outbound"
    and perm: "CallPermission_findOne (approved_for (c_contactId call)) d = Some q"
    and few: "consecutiveMissedCalls q < 4"
  shows "map consecutiveMissedCalls
           (filter (\<lambda>p. p_id p = p_id q) (permissions (call_status pI t1 req d))) =
         map (\<lambda>p. consecutiveMissedCalls p + 1)
           (filter (\<lambda>p. p_id p = p_id q) (permissions d))"
    and "map consecutiveMissedCalls
           (filter (\<lambda>p. p_id p = p_id q)
              (permissions (call_status pI t2 req (call_status pI t1 req d)))) =
         map (\<lambda>p. consecutiveMissedCalls p + 2)
           (filter (\<lambda>p. p_id p = p_id q) (permissions d))"
proof -
  let ?f = "\<lambda>p. if p_id p = p_id q
                 then p\<lparr>consecutiveMissedCalls := consecutiveMissedCalls p + 1\<rparr> else p"
  let ?d' = "call_status pI t1 req d"
  let ?call' = "status_updates pI t1 req call call"
  have first: "permissions ?d' = map ?f (permissions d)"
    using ev call perm few by (simp add: permissions_call_status permissions_missed_call)
  have after: "Call_findOne (CallSid req) ?d' = Some ?call'"
    by (rule Call_findOne_call_status [OF call(1)])
  have perm': "CallPermission_findOne (approved_for (c_contactId ?call')) ?d' =
                 Some (q\<lparr>consecutiveMissedCalls := consecutiveMissedCalls q + 1\<rparr>)"
    unfolding contact_status_updates by (rule missed_twice_findOne [OF perm first])
  have second: "permissions (call_status pI t2 req ?d') =
                  map (\<lambda>p. if p_id p = p_id q
                            then p\<lparr>consecutiveMissedCalls := consecutiveMissedCalls p + 1,
                                   p_status := (if 3 \<le> consecutiveMissedCalls q then ''expired''
                                                else p_status p)\<rparr>
                            else p) (permissions ?d')"
    using ev call(2)
    by (simp add: permissions_call_status [of pI t2] after direction_status_updates
        permissions_missed_call perm')
  have one: "filter (\<lambda>p. p_id p = p_id q) (permissions ?d') =
          map (\<lambda>p. p\<lparr>consecutiveMissedCalls := consecutiveMissedCalls p + 1\<rparr>)
            (filter (\<lambda>p. p_id p = p_id q) (permissions d))"
    unfolding first by (rule filter_id_map) simp
  have two: "filter (\<lambda>p. p_id p = p_id q) (permissions (call_status pI t2 req ?d')) =
          map (\<lambda>p. p\<lparr>consecutiveMissedCalls := consecutiveMissedCalls p + 1,
                      p_status := (if 3 \<le> consecutiveMissedCalls q then ''expired''
                                   else p_status p)\<rparr>)
            (filter (\<lambda>p. p_id p = p_id q) (permissions ?d'))"
    unfolding second by (rule filter_id_map) simp
  show "map consecutiveMissedCalls
           (filter (\<lambda>p. p_id p = p_id q) (permissions ?d')) =
         map (\<lambda>p. consecutiveMissedCalls p + 1)
           (filter (\<lambda>p. p_id p = p_id q) (permissions d))"
    by (simp add: one o_def)
  show "map consecutiveMissedCalls
           (filter (\<lambda>p. p_id p = p_id q)
              (permissions (call_status pI t2 req ?d'))) =
         map (\<lambda>p. consecutiveMissedCalls p + 2)
           (filter (\<lambda>p. p_id p = p_id q) (permissions d))"
    by (simp add: two one o_def)
qed

lemma findOne_Some:
  assumes "CallPermission_findOne w d = Some q"
  shows "q \<in> set (permissions d)" and "w q"
    and "\<And>p. p \<in> set (permissions d) \<Longrightarrow> w p \<Longrightarrow> createdAt p \<le> createdAt q"
proof -
  from assms have l: "latest (filter w (permissions d)) = Some q"
    by (simp add: CallPermission_findOne_def)
  from latest_mem [OF l] show "q \<in> set (permissions d)" and "w q" by simp_all
  fix p assume "p \<in> set (permissions d)" "w p"
  then have "p \<in> set (filter w (permissions d))" by simp
  from latest_max [OF l this] show "createdAt p \<le> createdAt q" .
qed

lemma permissions_call_status_toNumber:
  "permissions (call_status pI now req (update_call k (\<lambda>c. c\<lparr>toNumber := n\<rparr>) d)) =
     permissions (call_status pI now req d)"
proof -
  let ?f = "\<lambda>c. if c_id c = k then c\<lparr>toNumber := n\<rparr> else c"
  let ?d' = "update_call k (\<lambda>c. c\<lparr>toNumber := n\<rparr>) d"
  have "find (\<lambda>c. twilioCallSid c = CallSid req) (map ?f (calls d)) =
          map_option ?f (find (\<lambda>c. twilioCallSid c = CallSid req) (calls d))"
    by (rule find_map_same) simp
  then have found: "Call_findOne (CallSid req) ?d' = map_option ?f (Call_findOne (CallSid req) d)"
    by (simp add: Call_findOne_def update_call_def)
  have same: "permissions ?d' = permissions d"
    by (rule permissions_update_call)
  have "permissions (missed_call (?f c) ?d') = permissions (missed_call c d)" for c
    using findOne_cong [OF same] same by (simp add: permissions_missed_call split: option.splits)
  moreover have "permissions (answered_call (?f c) ?d') = permissions (answered_call c d)" for c
    using findOne_cong [OF same] same by (simp add: permissions_answered_call split: option.splits)
  ultimately show ?thesis
    by (cases "Call_findOne (CallSid req) d")
      (simp_all add: permissions_call_status [of pI now req ?d'] permissions_call_status [of pI now req d] found same)
qed

lemma Call_create_refused: "Call_create c d = Inl (NoSuchTable ''HubSpotContacts'')"
  by (simp add: Call_create_def schema_tables_def contactId_references_def)

lemma CallPermission_create_refused:
  "CallPermission_create p d = Inl (NoSuchTable ''HubSpotContacts'')"
  by (simp add: CallPermission_create_def schema_tables_def contactId_references_def)

lemma rate_limited_iff:
  assumes "HubSpotContact_findByPk (r_contactId req) d = Some contact"
  shows "(fst (permission_request clock sent req d) = RateLimited429) =
           (maxRequestsPerDay \<le>
              length (requests_since (r_contactId req)
                        (replace_first ''whatsapp:'' (r_whatsappNumber req))
                        (t_daily clock - day_ms) d) \<or>
            maxRequestsPer7Days \<le>
              length (requests_since (r_contactId req)
                        (replace_first ''whatsapp:'' (r_whatsappNumber req))
                        (t_weekly clock - 7 * day_ms) d))"
  using assms
  by (auto simp: permission_request_def Let_def dispatch_consent_def
      split: sum.splits)

lemma rate_limited_unchanged:
  "fst (permission_request clock sent req d) = RateLimited429 \<Longrightarrow>
     snd (permission_request clock sent req d) = d"
  by (auto simp: permission_request_def Let_def dispatch_consent_def
      split: option.splits sum.splits if_splits)










































lemma logs_missed_call: "logs (missed_call c d) = logs d"
  by (simp add: missed_call_def incrementMissedCalls_def update_permission_def Let_def
      split: option.splits)

lemma logs_answered_call: "logs (answered_call c d) = logs d"
  by (simp add: answered_call_def resetMissedCalls_def update_permission_def
      split: option.splits)

lemma call_status_no_call:
  "Call_findOne (CallSid req) d = None \<Longrightarrow> call_status pI now req d = d"
  by (simp add: call_status_def)

lemma logs_call_status:
  assumes "Call_findOne (CallSid req) d = Some call"
  shows "logs (call_status pI now req d) =
           logs d @
           [\<lparr>l_callId = c_id call, l_event = ''status_update'',
             l_status = Some (CallStatus req), l_source = ''twilio'',
             l_message = Some (''Call status updated to '' @ CallStatus req)\<rparr>]"
  using assms
  by (simp add: call_status_def Let_def logs_missed_call logs_answered_call
      CallLog_create_def update_call_def)

lemma logs_call_status_twice:
  assumes "Call_findOne (CallSid req) d = Some call"
  shows "logs (call_status pI t2 req (call_status pI t1 req d)) =
           logs d @
           [\<lparr>l_callId = c_id call, l_event = ''status_update'',
             l_status = Some (CallStatus req), l_source = ''twilio'',
             l_message = Some (''Call status updated to '' @ CallStatus req)\<rparr>,
            \<lparr>l_callId = c_id call, l_event = ''status_update'',
             l_status = Some (CallStatus req), l_source = ''twilio'',
             l_message = Some (''Call status updated to '' @ CallStatus req)\<rparr>]"
  using logs_call_status [OF Call_findOne_call_status [OF assms, of pI t1], of pI t2]
    logs_call_status [OF assms, of pI t1]
  by (simp add: id_status_updates)

section \<open>The call lifecycle\<close>

text \<open>
  C1, as the specification states it: once a Call is in a terminal status (completed,
  failed, busy, no-answer, canceled), no status update moves it out.  The handler of
  POST /call-status has no such guard: it writes the event's \<open>CallStatus\<close> whatever the
  current status is.  Here a completed Call receives a late \<open>ringing\<close> event and ends
  ringing.
\<close>

theorem terminal_status_overwritten:
  "terminal (c_status (sample_call ''completed'')) \<and>
   map c_status
     (calls (call_status parseInt_unused 2000 (status_event ''ringing'')
        (sample_db [sample_call ''completed''] []))) = [''ringing''] \<and>
   \<not> terminal ''ringing''"
  by (simp add: sample_defs table_defs handler_defs terminal_def)

text \<open>
  C1, amended: for every Call, terminal or not, and every status update event that carries
  its SID, the Call's status after the update is the event's \<open>CallStatus\<close>; so a terminal
  status is kept exactly when the event carries that same status.
\<close>

theorem call_status_sets_status:
  assumes "Call_findOne (CallSid req) d = Some call"
  shows "\<exists>call'. Call_findOne (CallSid req) (call_status parseInt now req d) = Some call' \<and>
           c_id call' = c_id call \<and> c_status call' = CallStatus req \<and>
           (terminal (c_status call) \<longrightarrow>
              (c_status call' = c_status call) = (CallStatus req = c_status call))"
proof -
  have "Call_findOne (CallSid req) (call_status parseInt now req d) =
          Some (status_updates parseInt now req call call)"
    by (rule Call_findOne_call_status [OF assms])
  then show ?thesis
    by (auto simp: id_status_updates status_status_updates)
qed

theorem call_status_sets_status_witness:
  "Call_findOne (CallSid (status_event ''failed'')) (sample_db [sample_call ''completed''] [])
     = Some (sample_call ''completed'') \<and>
   terminal (c_status (sample_call ''completed'')) \<and>
   (\<exists>call'. Call_findOne (CallSid (status_event ''failed''))
              (call_status parseInt_unused 2000 (status_event ''failed'')
                 (sample_db [sample_call ''completed''] [])) = Some call' \<and>
            c_status call' = ''failed'' \<and>
            c_status call' \<noteq> c_status (sample_call ''completed''))"
proof -
  have found: "Call_findOne (CallSid (status_event ''failed''))
                 (sample_db [sample_call ''completed''] []) = Some (sample_call ''completed'')"
    by (simp add: sample_defs Call_findOne_def)
  have final: "terminal (c_status (sample_call ''completed''))"
    by (simp add: sample_call_def terminal_def)
  from call_status_sets_status [OF found, of parseInt_unused 2000]
  obtain call' where
    after: "Call_findOne (CallSid (status_event ''failed''))
              (call_status parseInt_unused 2000 (status_event ''failed'')
                 (sample_db [sample_call ''completed''] [])) = Some call'"
    and written: "c_status call' = CallStatus (status_event ''failed'')"
    and kept: "terminal (c_status (sample_call ''completed'')) \<longrightarrow>
                 (c_status call' = c_status (sample_call ''completed'')) =
                 (CallStatus (status_event ''failed'') = c_status (sample_call ''completed''))"
    by blast
  from kept final have "c_status call' \<noteq> c_status (sample_call ''completed'')"
    by (simp add: sample_defs)
  moreover from written have "c_status call' = ''failed''"
    by (simp add: status_event_def)
  ultimately show ?thesis
    using found final after by blast
qed

text \<open>
  C8, as the specification states it: a hangup request marks the local Call completed, with
  an end time, whether or not the telephony collaborator's terminate operation succeeds.
  The handler awaits \<open>hangupCall\<close> before the local update, under the outer \<open>catch\<close> only:
  when the collaborator throws, the Call in progress stays in progress, with no end time.
\<close>

theorem hangup_failure_leaves_call:
  "map c_status
     (calls (snd (hangup 2000 (Inl CollaboratorError) ''CA1''
        (sample_db [sample_call ''in-progress''] [])))) = [''in-progress''] \<and>
   map endTime
     (calls (snd (hangup 2000 (Inl CollaboratorError) ''CA1''
        (sample_db [sample_call ''in-progress''] [])))) = [None] \<and>
   \<not> terminal ''in-progress''"
  by (simp add: sample_defs table_defs handler_defs terminal_def)

text \<open>
  C8, amended: a hangup request on an existing Call marks it completed, with the end time
  set, when the collaborator's terminate operation succeeds; when the collaborator fails,
  the request is answered with the generic failure (500) and the tables are left as they
  were.
\<close>

theorem hangup_completes_iff_terminated:
  assumes "Call_findOne callSid d = Some call"
  shows "hangup now (Inl e) callSid d = (Error500 e, d) \<and>
         fst (hangup now (Inr ()) callSid d) = Ok200 \<and>
         Call_findOne callSid (snd (hangup now (Inr ()) callSid d)) =
           Some (call\<lparr>c_status := ''completed'', endTime := Some now\<rparr>)"
proof -
  let ?f = "\<lambda>c. if c_id c = c_id call
                 then c\<lparr>c_status := ''completed'', endTime := Some now\<rparr> else c"
  have "find (\<lambda>c. twilioCallSid c = callSid) (map ?f (calls d)) =
          map_option ?f (find (\<lambda>c. twilioCallSid c = callSid) (calls d))"
    by (rule find_map_same) simp
  with assms show ?thesis
    by (simp add: hangup_def Call_findOne_def CallLog_create_def update_call_def)
qed

theorem hangup_completes_iff_terminated_witness:
  "hangup 2000 (Inl CollaboratorError) ''CA1'' (sample_db [sample_call ''ringing''] []) =
     (Error500 CollaboratorError, sample_db [sample_call ''ringing''] []) \<and>
   Call_findOne ''CA1''
     (snd (hangup 2000 (Inr ()) ''CA1'' (sample_db [sample_call ''ringing''] []))) =
     Some ((sample_call ''ringing'')\<lparr>c_status := ''completed'', endTime := Some 2000\<rparr>)"
proof -
  have found: "Call_findOne ''CA1'' (sample_db [sample_call ''ringing''] []) =
                 Some (sample_call ''ringing'')"
    by (simp add: sample_defs Call_findOne_def)
  show ?thesis
    using hangup_completes_iff_terminated [OF found, of 2000 CollaboratorError]
    by blast
qed




section \<open>The permission ledger\<close>

text \<open>
  C4, as the specification states it: \<open>canMakeCall\<close> holds exactly when the permission is
  approved, \<open>now < expiresAt\<close>, \<open>callsUsed < maxCalls\<close> and fewer than 4 calls were missed,
  so that it is false at the expiry instant.  \<open>isExpired\<close> is \<open>now > expiresAt\<close>: at the
  instant \<open>expiresAt\<close> itself the permission is not yet expired and a call is allowed.
\<close>

theorem canMakeCall_at_expiry_instant:
  "\<not> (canMakeCall 100 (sample_permission 1 ''+15550100'' (100 - 7 * day_ms) 0) =
        (p_status (sample_permission 1 ''+15550100'' (100 - 7 * day_ms) 0) = ''approved'' \<and>
         100 < expiresAt (sample_permission 1 ''+15550100'' (100 - 7 * day_ms) 0) \<and>
         callsUsed (sample_permission 1 ''+15550100'' (100 - 7 * day_ms) 0)
           < maxCalls (sample_permission 1 ''+15550100'' (100 - 7 * day_ms) 0) \<and>
         consecutiveMissedCalls (sample_permission 1 ''+15550100'' (100 - 7 * day_ms) 0) < 4))"
  by (simp add: sample_defs table_defs)

text \<open>
  C4, amended: \<open>canMakeCall\<close> is a function of the permission and the clock reading alone,
  and it holds exactly when the permission is approved, \<open>now \<le> expiresAt\<close>,
  \<open>callsUsed < maxCalls\<close> and \<open>consecutiveMissedCalls < 4\<close>; it is false from the first
  instant after \<open>expiresAt\<close> on.
\<close>

theorem canMakeCall_iff:
  "canMakeCall now p =
     (p_status p = ''approved'' \<and> now \<le> expiresAt p \<and>
      callsUsed p < maxCalls p \<and> consecutiveMissedCalls p < 4)"
  by (auto simp: canMakeCall_def isExpired_def)

theorem canMakeCall_iff_witness:
  "canMakeCall 100 (sample_permission 1 ''+15550100'' (100 - 7 * day_ms) 0) \<and>
   \<not> canMakeCall 101 (sample_permission 1 ''+15550100'' (100 - 7 * day_ms) 0)"
  using canMakeCall_iff [of 100 "sample_permission 1 ''+15550100'' (100 - 7 * day_ms) 0"]
    canMakeCall_iff [of 101 "sample_permission 1 ''+15550100'' (100 - 7 * day_ms) 0"]
  by (simp add: sample_defs)

text \<open>
  C5, evaluated on the code.  The contact has one earlier request for the number, made at
  the instant 1000000.  A request one hour later is answered 429, as the claim says.  A
  request 25 hours later passes both limits, but \<open>CallPermission.create\<close> is refused
  because the parent table its \<open>contactId\<close> names does not exist: the request is answered
  500 and nothing is stored, where the claim says it succeeds.  The very first request of
  a contact ends the same way.
\<close>

theorem later_request_refused_by_schema:
  "fst (permission_request (sample_clock (1000000 + 60 * 60 * 1000)) (Inr ''SM2'')
          sample_request (sample_db [] [sample_permission 1 ''+15550100'' 1000000 0]))
     = RateLimited429 \<and>
   permission_request (sample_clock (1000000 + 25 * 60 * 60 * 1000)) (Inr ''SM2'')
     sample_request (sample_db [] [sample_permission 1 ''+15550100'' 1000000 0]) =
     (Error500 (NoSuchTable ''HubSpotContacts''),
      sample_db [] [sample_permission 1 ''+15550100'' 1000000 0]) \<and>
   permission_request (sample_clock 1000000) (Inr ''SM1'') sample_request (sample_db [] []) =
     (Error500 (NoSuchTable ''HubSpotContacts''), sample_db [] [])"
  by (simp add: sample_defs table_defs handler_defs Let_def)






section \<open>Status events and the permission of the contact\<close>

text \<open>
  C2, as the specification states it: a second delivery of the same external event leaves
  the Call and CallPermission state as the first delivery left it, and in particular a
  second delivery of the same no-answer event leaves \<open>consecutiveMissedCalls\<close> unchanged.
  The handler keeps no record of the events it has applied: every delivery of a no-answer
  event for an outbound Call increments the counter.
\<close>

theorem no_answer_redelivered_counts_twice:
  "map consecutiveMissedCalls
     (permissions (call_status parseInt_unused 2000 (status_event ''no-answer'')
        (sample_db [sample_call ''ringing''] [sample_permission 1 ''+15550100'' 500 0]))) = [1] \<and>
   map consecutiveMissedCalls
     (permissions (call_status parseInt_unused 2000 (status_event ''no-answer'')
        (call_status parseInt_unused 2000 (status_event ''no-answer'')
           (sample_db [sample_call ''ringing''] [sample_permission 1 ''+15550100'' 500 0]))))
     = [2]"
  by (simp add: sample_defs table_defs handler_defs)

text \<open>
  C2, amended, for the status events of POST /call-status: delivering an event twice in
  succession leaves every Call as one delivery leaves it, and, when the event is not a
  no-answer, every CallPermission too.  A no-answer event for an outbound Call is counted
  on every delivery: while the contact's latest approved permission has missed fewer than
  4 calls, one delivery adds 1 to its \<open>consecutiveMissedCalls\<close> and two deliveries add 2.
  Every delivery for which a Call holds the SID appends its own entry to the call log, so
  two deliveries leave two entries; when no Call holds the SID a delivery changes nothing.
\<close>

theorem call_status_redelivery:
  "calls (call_status parseInt t2 req (call_status parseInt t1 req d)) =
     calls (call_status parseInt t1 req d) \<and>
   (CallStatus req \<noteq> ''no-answer'' \<longrightarrow>
      permissions (call_status parseInt t2 req (call_status parseInt t1 req d)) =
        permissions (call_status parseInt t1 req d)) \<and>
   (CallStatus req = ''no-answer'' \<and> Call_findOne (CallSid req) d = Some call \<and>
    c_direction call = Outbound \<and>
    CallPermission_findOne (approved_for (c_contactId call)) d = Some q \<and>
    consecutiveMissedCalls q < 4 \<longrightarrow>
      map consecutiveMissedCalls
        (filter (\<lambda>p. p_id p = p_id q) (permissions (call_status parseInt t1 req d))) =
        map (\<lambda>p. consecutiveMissedCalls p + 1)
          (filter (\<lambda>p. p_id p = p_id q) (permissions d)) \<and>
      map consecutiveMissedCalls
        (filter (\<lambda>p. p_id p = p_id q)
           (permissions (call_status parseInt t2 req (call_status parseInt t1 req d)))) =
        map (\<lambda>p. consecutiveMissedCalls p + 2)
          (filter (\<lambda>p. p_id p = p_id q) (permissions d))) \<and>
   (Call_findOne (CallSid req) d = Some call \<longrightarrow>
      logs (call_status parseInt t1 req d) =
        logs d @
        [\<lparr>l_callId = c_id call, l_event = ''status_update'',
          l_status = Some (CallStatus req), l_source = ''twilio'',
          l_message = Some (''Call status updated to '' @ CallStatus req)\<rparr>] \<and>
      logs (call_status parseInt t2 req (call_status parseInt t1 req d)) =
        logs d @
        [\<lparr>l_callId = c_id call, l_event = ''status_update'',
          l_status = Some (CallStatus req), l_source = ''twilio'',
          l_message = Some (''Call status updated to '' @ CallStatus req)\<rparr>,
         \<lparr>l_callId = c_id call, l_event = ''status_update'',
          l_status = Some (CallStatus req), l_source = ''twilio'',
          l_message = Some (''Call status updated to '' @ CallStatus req)\<rparr>]) \<and>
   (Call_findOne (CallSid req) d = None \<longrightarrow> call_status parseInt t1 req d = d)"
proof (intro conjI impI)
  show "calls (call_status parseInt t2 req (call_status parseInt t1 req d)) =
          calls (call_status parseInt t1 req d)"
    by (rule calls_twice)
next
  assume "CallStatus req \<noteq> ''no-answer''"
  then show "permissions (call_status parseInt t2 req (call_status parseInt t1 req d)) =
               permissions (call_status parseInt t1 req d)"
    by (rule permissions_twice)
next
  assume *: "CallStatus req = ''no-answer'' \<and> Call_findOne (CallSid req) d = Some call \<and>
    c_direction call = Outbound \<and>
    CallPermission_findOne (approved_for (c_contactId call)) d = Some q \<and>
    consecutiveMissedCalls q < 4"
  then have ev: "CallStatus req = ''no-answer''"
    and call: "Call_findOne (CallSid req) d = Some call" "c_direction call = Outbound"
    and perm: "CallPermission_findOne (approved_for (c_contactId call)) d = Some q"
    and few: "consecutiveMissedCalls q < 4"
    by simp_all
  show "map consecutiveMissedCalls
        (filter (\<lambda>p. p_id p = p_id q) (permissions (call_status parseInt t1 req d))) =
        map (\<lambda>p. consecutiveMissedCalls p + 1)
          (filter (\<lambda>p. p_id p = p_id q) (permissions d))"
    by (rule no_answer_twice(1) [OF ev call perm few])
  show "map consecutiveMissedCalls
        (filter (\<lambda>p. p_id p = p_id q)
           (permissions (call_status parseInt t2 req (call_status parseInt t1 req d)))) =
        map (\<lambda>p. consecutiveMissedCalls p + 2)
          (filter (\<lambda>p. p_id p = p_id q) (permissions d))"
    by (rule no_answer_twice(2) [OF ev call perm few])
next
  assume found: "Call_findOne (CallSid req) d = Some call"
  show "logs (call_status parseInt t1 req d) =
        logs d @
        [\<lparr>l_callId = c_id call, l_event = ''status_update'',
          l_status = Some (CallStatus req), l_source = ''twilio'',
          l_message = Some (''Call status updated to '' @ CallStatus req)\<rparr>]"
    by (rule logs_call_status [OF found])
  show "logs (call_status parseInt t2 req (call_status parseInt t1 req d)) =
        logs d @
        [\<lparr>l_callId = c_id call, l_event = ''status_update'',
          l_status = Some (CallStatus req), l_source = ''twilio'',
          l_message = Some (''Call status updated to '' @ CallStatus req)\<rparr>,
         \<lparr>l_callId = c_id call, l_event = ''status_update'',
          l_status = Some (CallStatus req), l_source = ''twilio'',
          l_message = Some (''Call status updated to '' @ CallStatus req)\<rparr>]"
    by (rule logs_call_status_twice [OF found])
next
  assume "Call_findOne (CallSid req) d = None"
  then show "call_status parseInt t1 req d = d"
    by (rule call_status_no_call)
qed

theorem call_status_redelivery_witness:
  "CallStatus (status_event ''answered'') \<noteq> ''no-answer'' \<and>
   permissions (call_status parseInt_unused 3000 (status_event ''answered'')
      (call_status parseInt_unused 2000 (status_event ''answered'')
         (sample_db [sample_call ''ringing''] [sample_permission 1 ''+15550100'' 500 2]))) =
     permissions (call_status parseInt_unused 2000 (status_event ''answered'')
        (sample_db [sample_call ''ringing''] [sample_permission 1 ''+15550100'' 500 2])) \<and>
   CallStatus (status_event ''no-answer'') = ''no-answer'' \<and>
   Call_findOne (CallSid (status_event ''no-answer''))
     (sample_db [sample_call ''ringing''] [sample_permission 1 ''+15550100'' 500 0]) =
     Some (sample_call ''ringing'') \<and>
   c_direction (sample_call ''ringing'') = Outbound \<and>
   CallPermission_findOne (approved_for (c_contactId (sample_call ''ringing'')))
     (sample_db [sample_call ''ringing''] [sample_permission 1 ''+15550100'' 500 0]) =
     Some (sample_permission 1 ''+15550100'' 500 0) \<and>
   consecutiveMissedCalls (sample_permission 1 ''+15550100'' 500 0) < 4 \<and>
   map consecutiveMissedCalls
     (filter (\<lambda>p. p_id p = p_id (sample_permission 1 ''+15550100'' 500 0))
        (permissions (call_status parseInt_unused 3000 (status_event ''no-answer'')
           (call_status parseInt_unused 2000 (status_event ''no-answer'')
              (sample_db [sample_call ''ringing''] [sample_permission 1 ''+15550100'' 500 0])))))
     = [2] \<and>
   map l_event
     (logs (call_status parseInt_unused 3000 (status_event ''no-answer'')
        (call_status parseInt_unused 2000 (status_event ''no-answer'')
           (sample_db [sample_call ''ringing''] [sample_permission 1 ''+15550100'' 500 0]))))
     = [''status_update'', ''status_update''] \<and>
   Call_findOne (CallSid (status_event ''no-answer'')) (sample_db [] []) = None \<and>
   call_status parseInt_unused 2000 (status_event ''no-answer'') (sample_db [] []) =
     sample_db [] []"
proof -
  let ?d = "sample_db [sample_call ''ringing''] [sample_permission 1 ''+15550100'' 500 0]"
  let ?q = "sample_permission 1 ''+15550100'' 500 0"
  have other: "CallStatus (status_event ''answered'') \<noteq> ''no-answer''"
    by (simp add: status_event_def)
  have missed: "CallStatus (status_event ''no-answer'') = ''no-answer''"
    "Call_findOne (CallSid (status_event ''no-answer'')) ?d = Some (sample_call ''ringing'')"
    "c_direction (sample_call ''ringing'') = Outbound"
    "CallPermission_findOne (approved_for (c_contactId (sample_call ''ringing''))) ?d = Some ?q"
    "consecutiveMissedCalls ?q < 4"
    by (simp_all add: sample_defs table_defs)
  have unknown: "Call_findOne (CallSid (status_event ''no-answer'')) (sample_db [] []) = None"
    by (simp add: sample_defs Call_findOne_def)
  have before: "map (\<lambda>p. consecutiveMissedCalls p + 2)
                  (filter (\<lambda>p. p_id p = p_id ?q) (permissions ?d)) = [2]"
    and empty: "logs ?d = []"
    by (simp_all add: sample_defs)
  from call_status_redelivery
         [of parseInt_unused 3000 "status_event ''answered''" 2000
             "sample_db [sample_call ''ringing''] [sample_permission 1 ''+15550100'' 500 2]"]
    other
  have same: "permissions (call_status parseInt_unused 3000 (status_event ''answered'')
          (call_status parseInt_unused 2000 (status_event ''answered'')
             (sample_db [sample_call ''ringing''] [sample_permission 1 ''+15550100'' 500 2]))) =
        permissions (call_status parseInt_unused 2000 (status_event ''answered'')
          (sample_db [sample_call ''ringing''] [sample_permission 1 ''+15550100'' 500 2]))"
    by blast
  note at_sample = call_status_redelivery
         [of parseInt_unused 3000 "status_event ''no-answer''" 2000 ?d
             "sample_call ''ringing''" ?q]
  from at_sample missed
  have "map consecutiveMissedCalls
          (filter (\<lambda>p. p_id p = p_id ?q)
             (permissions (call_status parseInt_unused 3000 (status_event ''no-answer'')
                (call_status parseInt_unused 2000 (status_event ''no-answer'') ?d)))) =
        map (\<lambda>p. consecutiveMissedCalls p + 2)
          (filter (\<lambda>p. p_id p = p_id ?q) (permissions ?d))"
    by blast
  with before have twice: "map consecutiveMissedCalls
          (filter (\<lambda>p. p_id p = p_id ?q)
             (permissions (call_status parseInt_unused 3000 (status_event ''no-answer'')
                (call_status parseInt_unused 2000 (status_event ''no-answer'') ?d)))) = [2]"
    by simp
  from at_sample missed(2)
  have "logs (call_status parseInt_unused 3000 (status_event ''no-answer'')
               (call_status parseInt_unused 2000 (status_event ''no-answer'') ?d)) =
        logs ?d @
        [\<lparr>l_callId = c_id (sample_call ''ringing''), l_event = ''status_update'',
          l_status = Some (CallStatus (status_event ''no-answer'')), l_source = ''twilio'',
          l_message =
            Some (''Call status updated to '' @ CallStatus (status_event ''no-answer''))\<rparr>,
         \<lparr>l_callId = c_id (sample_call ''ringing''), l_event = ''status_update'',
          l_status = Some (CallStatus (status_event ''no-answer'')), l_source = ''twilio'',
          l_message =
            Some (''Call status updated to '' @ CallStatus (status_event ''no-answer''))\<rparr>]"
    by blast
  then have logged: "map l_event
          (logs (call_status parseInt_unused 3000 (status_event ''no-answer'')
             (call_status parseInt_unused 2000 (status_event ''no-answer'') ?d))) =
        [''status_update'', ''status_update'']"
    unfolding empty by simp
  from call_status_redelivery
         [of parseInt_unused 3000 "status_event ''no-answer''" 2000 "sample_db [] []"]
    unknown
  have untouched: "call_status parseInt_unused 2000 (status_event ''no-answer'') (sample_db [] [])
                   = sample_db [] []"
    by blast
  show ?thesis
    by (intro conjI other same missed twice logged unknown untouched)
qed

text \<open>
  C3, evaluated on the code: the contact's approved permission has missed 3 calls and a
  fourth no-answer event arrives.  \<open>incrementMissedCalls\<close> makes the stored counter 4, but
  the test \<open>permission.consecutiveMissedCalls >= 4\<close> reads the instance loaded before the
  increment, which still says 3: the permission stays approved.  A later \<open>answered\<close>
  event resets the counter and \<open>canMakeCall\<close> is true again.
\<close>

theorem fourth_missed_call_leaves_approved:
  "map consecutiveMissedCalls
     (permissions (call_status parseInt_unused 2000 (status_event ''no-answer'')
        (sample_db [sample_call ''ringing''] [sample_permission 1 ''+15550100'' 500 3]))) = [4] \<and>
   map p_status
     (permissions (call_status parseInt_unused 2000 (status_event ''no-answer'')
        (sample_db [sample_call ''ringing''] [sample_permission 1 ''+15550100'' 500 3])))
     = [''approved''] \<and>
   map (canMakeCall 4000)
     (permissions (call_status parseInt_unused 3000 (status_event ''answered'')
        (call_status parseInt_unused 2000 (status_event ''no-answer'')
           (sample_db [sample_call ''ringing''] [sample_permission 1 ''+15550100'' 500 3]))))
     = [True]"
  by (simp add: sample_defs table_defs handler_defs)

text \<open>
  C10: when a no-answer or an answered event arrives for an outbound Call, the permission
  that is incremented, expired or reset is the one \<open>findOne\<close> returns for the Call's
  contact and the status approved, the latest created; no other permission changes.  The
  Call's destination plays no part: with any other \<open>toNumber\<close> on the Call the
  permissions end the same.
\<close>

theorem outcome_permission_by_contact:
  assumes "Call_findOne (CallSid req) d = Some call"
    and "c_direction call = Outbound"
    and "CallStatus req = ''no-answer'' \<or> CallStatus req = ''answered''"
  shows "permissions (call_status parseInt now req
                        (update_call (c_id call) (\<lambda>c. c\<lparr>toNumber := n\<rparr>) d)) =
           permissions (call_status parseInt now req d) \<and>
         (case CallPermission_findOne (approved_for (c_contactId call)) d of
           None \<Rightarrow> permissions (call_status parseInt now req d) = permissions d
         | Some q \<Rightarrow>
             q \<in> set (permissions d) \<and> p_contactId q = c_contactId call \<and>
             p_status q = ''approved'' \<and>
             (\<forall>p \<in> set (permissions d).
                p_contactId p = c_contactId call \<and> p_status p = ''approved'' \<longrightarrow>
                createdAt p \<le> createdAt q) \<and>
             permissions (call_status parseInt now req d) =
               map (\<lambda>p. if p_id p = p_id q
                         then (if CallStatus req = ''no-answer''
                               then p\<lparr>consecutiveMissedCalls := consecutiveMissedCalls p + 1,
                                      p_status := (if 4 \<le> consecutiveMissedCalls q
                                                   then ''expired'' else p_status p)\<rparr>
                               else p\<lparr>consecutiveMissedCalls := 0\<rparr>)
                         else p) (permissions d))"
proof (rule conjI)
  show "permissions (call_status parseInt now req
                       (update_call (c_id call) (\<lambda>c. c\<lparr>toNumber := n\<rparr>) d)) =
          permissions (call_status parseInt now req d)"
    by (rule permissions_call_status_toNumber)
next
  show "case CallPermission_findOne (approved_for (c_contactId call)) d of
           None \<Rightarrow> permissions (call_status parseInt now req d) = permissions d
         | Some q \<Rightarrow>
             q \<in> set (permissions d) \<and> p_contactId q = c_contactId call \<and>
             p_status q = ''approved'' \<and>
             (\<forall>p \<in> set (permissions d).
                p_contactId p = c_contactId call \<and> p_status p = ''approved'' \<longrightarrow>
                createdAt p \<le> createdAt q) \<and>
             permissions (call_status parseInt now req d) =
               map (\<lambda>p. if p_id p = p_id q
                         then (if CallStatus req = ''no-answer''
                               then p\<lparr>consecutiveMissedCalls := consecutiveMissedCalls p + 1,
                                      p_status := (if 4 \<le> consecutiveMissedCalls q
                                                   then ''expired'' else p_status p)\<rparr>
                               else p\<lparr>consecutiveMissedCalls := 0\<rparr>)
                         else p) (permissions d)"
  proof (cases "CallPermission_findOne (approved_for (c_contactId call)) d")
    case None
    with assms show ?thesis
      by (auto simp: permissions_call_status permissions_missed_call permissions_answered_call)
  next
    case (Some q)
    note found = findOne_Some [OF Some]
    have "permissions (call_status parseInt now req d) =
            map (\<lambda>p. if p_id p = p_id q
                      then (if CallStatus req = ''no-answer''
                            then p\<lparr>consecutiveMissedCalls := consecutiveMissedCalls p + 1,
                                   p_status := (if 4 \<le> consecutiveMissedCalls q
                                                then ''expired'' else p_status p)\<rparr>
                            else p\<lparr>consecutiveMissedCalls := 0\<rparr>)
                      else p) (permissions d)"
      using assms Some
      by (auto simp: permissions_call_status permissions_missed_call permissions_answered_call)
    moreover have "createdAt p \<le> createdAt q"
      if "p \<in> set (permissions d)"
        "p_contactId p = c_contactId call \<and> p_status p = ''approved''" for p
      using found(3) [OF that(1)] that(2) by (simp add: approved_for_def)
    ultimately show ?thesis
      using found(1,2) Some by (simp add: approved_for_def)
  qed
qed

theorem outcome_permission_by_contact_witness:
  "Call_findOne (CallSid (status_event ''no-answer''))
     (sample_db [sample_call ''ringing'']
        [sample_permission 1 ''+15550100'' 500 0, sample_permission 2 ''+15550199'' 900 0]) =
     Some (sample_call ''ringing'') \<and>
   c_direction (sample_call ''ringing'') = Outbound \<and>
   toNumber (sample_call ''ringing'') = ''whatsapp:+15550100'' \<and>
   CallPermission_findOne (approved_for (c_contactId (sample_call ''ringing'')))
     (sample_db [sample_call ''ringing'']
        [sample_permission 1 ''+15550100'' 500 0, sample_permission 2 ''+15550199'' 900 0]) =
     Some (sample_permission 2 ''+15550199'' 900 0) \<and>
   map consecutiveMissedCalls
     (permissions (call_status parseInt_unused 2000 (status_event ''no-answer'')
        (sample_db [sample_call ''ringing'']
           [sample_permission 1 ''+15550100'' 500 0, sample_permission 2 ''+15550199'' 900 0])))
     = [0, 1]"
proof -
  let ?d = "sample_db [sample_call ''ringing'']
              [sample_permission 1 ''+15550100'' 500 0, sample_permission 2 ''+15550199'' 900 0]"
  have call: "Call_findOne (CallSid (status_event ''no-answer'')) ?d = Some (sample_call ''ringing'')"
    and out: "c_direction (sample_call ''ringing'') = Outbound"
    and ev: "CallStatus (status_event ''no-answer'') = ''no-answer'' \<or>
             CallStatus (status_event ''no-answer'') = ''answered''"
    and dest: "toNumber (sample_call ''ringing'') = ''whatsapp:+15550100''"
    and perm: "CallPermission_findOne (approved_for (c_contactId (sample_call ''ringing''))) ?d =
                 Some (sample_permission 2 ''+15550199'' 900 0)"
    by (simp_all add: sample_defs table_defs)
  from outcome_permission_by_contact [OF call out ev, of parseInt_unused 2000, THEN conjunct2]
    perm
  have "permissions (call_status parseInt_unused 2000 (status_event ''no-answer'') ?d) =
          map (\<lambda>p. if p_id p = p_id (sample_permission 2 ''+15550199'' 900 0)
                    then (if CallStatus (status_event ''no-answer'') = ''no-answer''
                          then p\<lparr>consecutiveMissedCalls := consecutiveMissedCalls p + 1,
                                 p_status :=
                                   (if 4 \<le> consecutiveMissedCalls
                                              (sample_permission 2 ''+15550199'' 900 0)
                                    then ''expired'' else p_status p)\<rparr>
                          else p\<lparr>consecutiveMissedCalls := 0\<rparr>)
                    else p) (permissions ?d)"
    by simp
  then have "map consecutiveMissedCalls
               (permissions (call_status parseInt_unused 2000 (status_event ''no-answer'') ?d))
             = [0, 1]"
    by (simp add: sample_defs)
  with call out dest perm show ?thesis by blast
qed

end
